theory Spec2Isabelle
  imports Main "HOL-Library.Sublist" "HOL-Library.Multiset"
begin

section \<open>Python values used by web\_tracker.py\<close>

text \<open>
  A \<open>datetime\<close> is modelled as the integer number of microseconds since a fixed origin
  (the resolution of Python's datetime), so that a difference of two of them is a
  timedelta in microseconds. Every call of \<open>datetime.now()\<close> in the source becomes an
  explicit parameter \<open>now\<close> of the model.
\<close>

type_synonym datetime = int

text \<open>The exceptions the core raises; \<open>TypeError\<close> is what \<open>None - datetime\<close> raises.\<close>

datatype exn =
    DefectAlreadyResolvedException string
  | CriticalHaltException string
  | ValueError string
  | RuntimeError string
  | TypeError

datatype 'a result = Returned 'a | Raised exn

text \<open>
  Strings are lists of 8-bit characters read as the code points 0..255. On these
  \<open>str.lower()\<close> adds 32 to the letters A..Z and to the Latin-1 capitals
  (192..222 except the multiplication sign 215) and leaves every other character alone.
\<close>

definition lower_char :: "char \<Rightarrow> char" where
  "lower_char c =
     (let n = (of_char c :: nat)
      in if (65 \<le> n \<and> n \<le> 90) \<or> (192 \<le> n \<and> n \<le> 222 \<and> n \<noteq> 215)
         then char_of (n + 32) else c)"

definition lower :: "string \<Rightarrow> string" where
  "lower s = map lower_char s"

text \<open>\<open>word in desc\<close> on strings: \<open>word\<close> occurs as a contiguous piece of \<open>desc\<close>.\<close>

fun str_in :: "string \<Rightarrow> string \<Rightarrow> bool" where
  "str_in w [] = (w = [])"
| "str_in w (c # cs) = (prefix w (c # cs) \<or> str_in w cs)"

text \<open>\<open>any(word in desc for word in words)\<close>.\<close>

definition any_word_in :: "string list \<Rightarrow> string \<Rightarrow> bool" where
  "any_word_in ws desc = list_ex (\<lambda>w. str_in w desc) ws"





section \<open>The defect model\<close>

text \<open>
  The two subclasses of \<open>Defect\<close>, each with the attribute its constructor adds
  (\<open>cosmetic_area\<close>, \<open>safety_risk\<close>). The base class is abstract: its
  \<open>get_impact_level\<close> and \<open>get_priority_weight\<close> raise, and no caller constructs it.
\<close>

datatype variant = MinorDefect string | CriticalDefect string

record defect =
  defect_id :: string
  task_name :: string
  description :: string
  logged_by :: string
  is_resolved :: bool
  resolved_by :: string
  resolution_details :: string
  logged_at :: datetime
  resolved_at :: "datetime option"
  variant :: variant

text \<open>\<open>Defect.__init__\<close> followed by the subclass's assignment of its own attribute.\<close>

definition Defect_init :: "datetime \<Rightarrow> string \<Rightarrow> string \<Rightarrow> string \<Rightarrow> string \<Rightarrow> variant \<Rightarrow> defect" where
  "Defect_init now did task desc user v =
     \<lparr> defect_id = did, task_name = task, description = desc, logged_by = user,
       is_resolved = False, resolved_by = ''None'', resolution_details = ''Pending'',
       logged_at = now, resolved_at = None, variant = v \<rparr>"

definition new_MinorDefect :: "datetime \<Rightarrow> string \<Rightarrow> string \<Rightarrow> string \<Rightarrow> string \<Rightarrow> string \<Rightarrow> defect" where
  "new_MinorDefect now did task desc user cosmetic_area =
     Defect_init now did task desc user (MinorDefect cosmetic_area)"

definition new_CriticalDefect :: "datetime \<Rightarrow> string \<Rightarrow> string \<Rightarrow> string \<Rightarrow> string \<Rightarrow> string \<Rightarrow> defect" where
  "new_CriticalDefect now did task desc user safety_risk =
     Defect_init now did task desc user (CriticalDefect safety_risk)"

definition get_impact_level :: "defect \<Rightarrow> string" where
  "get_impact_level d = (case variant d of MinorDefect _ \<Rightarrow> ''Minor'' | CriticalDefect _ \<Rightarrow> ''CRITICAL'')"

definition get_priority_weight :: "defect \<Rightarrow> int" where
  "get_priority_weight d = (case variant d of MinorDefect _ \<Rightarrow> 1 | CriticalDefect _ \<Rightarrow> 10)"

text \<open>
  \<open>Defect.resolve\<close> mutates the object, so the model returns the object after the call
  together with the outcome; on the raise the object is the one passed in.
\<close>

definition resolve :: "datetime \<Rightarrow> defect \<Rightarrow> string \<Rightarrow> string \<Rightarrow> unit result \<times> defect" where
  "resolve now self resolver_name details =
     (if is_resolved self
      then (Raised (DefectAlreadyResolvedException ''Defect already resolved.''), self)
      else (Returned (),
            self\<lparr> is_resolved := True, resolved_by := resolver_name,
                  resolution_details := details, resolved_at := Some now \<rparr>))"



text \<open>\<open>Defect.__lt__\<close>, branch by branch.\<close>

definition lt :: "defect \<Rightarrow> defect \<Rightarrow> bool" where
  "lt self other =
     (if is_resolved self \<and> \<not> is_resolved other then False
      else if \<not> is_resolved self \<and> is_resolved other then True
      else (let priority_diff = get_priority_weight other - get_priority_weight self
            in if priority_diff \<noteq> 0 then priority_diff < 0
               else logged_at self > logged_at other))"

section \<open>Resolution engine and factory\<close>

definition electrical_text :: string where
  "electrical_text = ''Isolate power supply immediately. Replace damaged wiring, perform continuity testing, and verify against safety protocol IEEE-1584.''"

definition cosmetic_text :: string where
  "cosmetic_text = ''Route to touch-up station. Buff affected area, reapply surface coating, and verify thickness under QA lighting.''"

definition hardware_text :: string where
  "hardware_text = ''Perform line-stop. Replenish hardware bins, install missing components, and recalibrate automated dispensers.''"

definition software_text :: string where
  "software_text = ''Extract error logs, flash firmware to the last known stable version, and reboot system in diagnostic mode.''"

definition escalation_text :: string where
  "escalation_text = ''Halt operation immediately. Escalate to Senior Engineering for a 5-Whys Root Cause Analysis (RCA) before resuming.''"

definition tier1_text :: string where
  "tier1_text = ''Apply standard Tier-1 rework procedure and flag unit for secondary QA inspection.''"

definition electrical_words :: "string list" where
  "electrical_words = [''wire'', ''voltage'', ''shock'', ''electric'']"

definition cosmetic_words :: "string list" where
  "cosmetic_words = [''scratch'', ''paint'', ''dent'', ''cosmetic'']"

definition hardware_words :: "string list" where
  "hardware_words = [''missing'', ''screw'', ''bolt'', ''part'']"

definition software_words :: "string list" where
  "software_words = [''software'', ''crash'', ''bug'', ''boot'']"

definition suggest_fix :: "defect \<Rightarrow> string" where
  "suggest_fix d =
     (let desc = lower (description d)
      in if any_word_in electrical_words desc then electrical_text
         else if any_word_in cosmetic_words desc then cosmetic_text
         else if any_word_in hardware_words desc then hardware_text
         else if any_word_in software_words desc then software_text
         else if get_impact_level d = ''CRITICAL'' then escalation_text
         else tier1_text)"

definition create_defect :: "datetime \<Rightarrow> string \<Rightarrow> string \<Rightarrow> string \<Rightarrow> string \<Rightarrow> string \<Rightarrow> string \<Rightarrow> defect" where
  "create_defect now defect_type did task desc user detail =
     (if lower defect_type = ''critical''
      then new_CriticalDefect now did task desc user detail
      else new_MinorDefect now did task desc user detail)"

section \<open>The defect log\<close>

text \<open>
  \<open>DefectLog.defects\<close> is a list of defect objects. Every caller constructs a fresh
  object for each report, so no object sits in the list twice and the list of the
  objects' values carries the whole state; mutating the object that \<open>find_defect\<close>
  returned is an update of the list at the position where it was found.
\<close>

type_synonym defect_log = "defect list"

definition add_defect :: "defect_log \<Rightarrow> defect \<Rightarrow> defect_log" where
  "add_defect defects d = defects @ [d]"

fun find_index :: "defect_log \<Rightarrow> string \<Rightarrow> nat option" where
  "find_index [] did = None"
| "find_index (d # ds) did =
     (if lower (defect_id d) = lower did then Some 0
      else map_option Suc (find_index ds did))"

definition find_defect :: "defect_log \<Rightarrow> string \<Rightarrow> defect option" where
  "find_defect defects did = map_option (\<lambda>i. defects ! i) (find_index defects did)"

definition remove_resolved_defects :: "defect_log \<Rightarrow> defect_log" where
  "remove_resolved_defects defects = filter (\<lambda>d. \<not> is_resolved d) defects"

section \<open>The controller\<close>

text \<open>
  What the controller does to the outside is kept as a trace: each \<open>pickle.dump\<close> of
  the log to the data file with the log it was given and whether it succeeded, and each
  line sent to the audit logger. Whether a write succeeds is the environment's choice,
  a parameter of every command.
\<close>

datatype disk = DiskOk | DiskError string

datatype io_event =
    PickleDump "defect list" bool
  | AuditInfo string
  | AuditError string

record controller =
  log_database :: defect_log
  io_trace :: "io_event list"

definition force_save_data :: "disk \<Rightarrow> controller \<Rightarrow> controller" where
  "force_save_data dk c =
     (case dk of
        DiskOk \<Rightarrow> c\<lparr> io_trace := io_trace c @ [PickleDump (log_database c) True] \<rparr>
      | DiskError e \<Rightarrow>
          c\<lparr> io_trace := io_trace c @
                [PickleDump (log_database c) False,
                 AuditError (''Failed to save database state: '' @ e)] \<rparr>)"

definition report_defect :: "disk \<Rightarrow> controller \<Rightarrow> defect \<Rightarrow> unit result \<times> controller" where
  "report_defect dk c d =
     (let c1 = c\<lparr> log_database := add_defect (log_database c) d \<rparr>;
          c2 = force_save_data dk c1;
          c3 = c2\<lparr> io_trace := io_trace c2 @ [AuditInfo (''New defect logged: '' @ defect_id d)] \<rparr>
      in case variant d of
           CriticalDefect _ \<Rightarrow>
             (Raised (CriticalHaltException
                (''!!! SYSTEM HALT !!!'' @ [char_of (10::nat)] @ ''CRITICAL DEFECT LOGGED: '' @ description d)), c3)
         | MinorDefect _ \<Rightarrow> (Returned (), c3))"

definition process_resolution :: "disk \<Rightarrow> datetime \<Rightarrow> controller \<Rightarrow> string \<Rightarrow> string \<Rightarrow> string \<Rightarrow> unit result \<times> controller" where
  "process_resolution dk now c did manager_name details =
     (case find_index (log_database c) did of
        Some i \<Rightarrow>
          (case resolve now (log_database c ! i) manager_name details of
             (Raised e, d') \<Rightarrow> (Raised e, c\<lparr> log_database := (log_database c)[i := d'] \<rparr>)
           | (Returned u, d') \<Rightarrow>
               (Returned (), force_save_data dk (c\<lparr> log_database := (log_database c)[i := d'] \<rparr>)))
      | None \<Rightarrow> (Raised (ValueError (''Error: Defect ID '' @ [CHR 0x27] @ did @ [CHR 0x27] @ '' not found.'')), c))"

definition clear_resolved_defects :: "disk \<Rightarrow> controller \<Rightarrow> unit result \<times> controller" where
  "clear_resolved_defects dk c =
     (let initial_count = length (log_database c);
          c1 = c\<lparr> log_database := remove_resolved_defects (log_database c) \<rparr>
      in if initial_count \<noteq> length (log_database c1)
         then (Returned (), force_save_data dk c1)
         else (Raised (RuntimeError ''No resolved defects found to clear.''), c1))"

text \<open>
  \<open>list.sort()\<close> is a stable sort that compares with \<open>__lt__\<close> only. For a comparison
  that is a strict weak order the stable result is unique; it is computed here by
  stable insertion.
\<close>

fun insert_lt :: "defect \<Rightarrow> defect list \<Rightarrow> defect list" where
  "insert_lt x [] = [x]"
| "insert_lt x (y # ys) = (if lt y x then y # insert_lt x ys else x # y # ys)"

fun list_sort :: "defect list \<Rightarrow> defect list" where
  "list_sort [] = []"
| "list_sort (x # xs) = insert_lt x (list_sort xs)"

definition get_all_defects_sorted :: "controller \<Rightarrow> defect list" where
  "get_all_defects_sorted c = list_sort (log_database c)"

definition count_defects_for_task :: "controller \<Rightarrow> string \<Rightarrow> nat" where
  "count_defects_for_task c task =
     length (filter (\<lambda>d. lower (task_name d) = lower task) (log_database c))"

text \<open>
  The states of the controller that the commands produce from the empty log, each report
  being of a defect that the factory has just constructed.
\<close>

inductive reachable :: "controller \<Rightarrow> bool" where
  start: "reachable \<lparr> log_database = [], io_trace = [] \<rparr>"
| report: "reachable c \<Longrightarrow>
     report_defect dk c (create_defect now defect_type did task desc user detail) = (r, c') \<Longrightarrow>
     reachable c'"
| resolution: "reachable c \<Longrightarrow>
     process_resolution dk now c did manager_name details = (r, c') \<Longrightarrow> reachable c'"
| clear: "reachable c \<Longrightarrow> clear_resolved_defects dk c = (r, c') \<Longrightarrow> reachable c'"

section \<open>Defect.resolve\<close>

text \<open>
  Claim C3. Resolving a defect that is already resolved raises
  DefectAlreadyResolvedException and leaves the defect as it was; resolving an
  unresolved defect returns, with \<open>is_resolved\<close> true, \<open>resolved_by\<close> the resolver,
  \<open>resolution_details\<close> the details, \<open>resolved_at\<close> the current time and every other
  field as before; the raise happens exactly when the defect was already resolved.
\<close>

theorem resolve_contract:
  "(is_resolved d \<longrightarrow>
      resolve now d resolver_name details =
        (Raised (DefectAlreadyResolvedException ''Defect already resolved.''), d))
   \<and> (\<not> is_resolved d \<longrightarrow>
      (\<exists>d'. resolve now d resolver_name details = (Returned (), d')
         \<and> is_resolved d' \<and> resolved_by d' = resolver_name
         \<and> resolution_details d' = details \<and> resolved_at d' = Some now
         \<and> defect_id d' = defect_id d \<and> task_name d' = task_name d
         \<and> description d' = description d \<and> logged_by d' = logged_by d
         \<and> logged_at d' = logged_at d \<and> variant d' = variant d))
   \<and> ((\<exists>e. fst (resolve now d resolver_name details) = Raised e) = is_resolved d)"
  by (simp add: resolve_def)

theorem resolve_contract_witness:
  "resolve 7 (Defect_init 5 ''D-001'' ''weld'' ''loose bolt'' ''ann'' (MinorDefect ''N/A'')) ''bob'' ''tightened''
     = (Returned (),
        (Defect_init 5 ''D-001'' ''weld'' ''loose bolt'' ''ann'' (MinorDefect ''N/A''))
          \<lparr> is_resolved := True, resolved_by := ''bob'',
            resolution_details := ''tightened'', resolved_at := Some 7 \<rparr>)
   \<and> resolve 9 ((Defect_init 5 ''D-001'' ''weld'' ''loose bolt'' ''ann'' (MinorDefect ''N/A''))
          \<lparr> is_resolved := True, resolved_by := ''bob'',
            resolution_details := ''tightened'', resolved_at := Some 7 \<rparr>) ''eve'' ''again''
     = (Raised (DefectAlreadyResolvedException ''Defect already resolved.''),
        (Defect_init 5 ''D-001'' ''weld'' ''loose bolt'' ''ann'' (MinorDefect ''N/A''))
          \<lparr> is_resolved := True, resolved_by := ''bob'',
            resolution_details := ''tightened'', resolved_at := Some 7 \<rparr>)"
proof -
  let ?d = "Defect_init 5 ''D-001'' ''weld'' ''loose bolt'' ''ann'' (MinorDefect ''N/A'')"
  let ?r = "?d\<lparr> is_resolved := True, resolved_by := ''bob'',
            resolution_details := ''tightened'', resolved_at := Some 7 \<rparr>"
  have u: "\<not> is_resolved ?d" by (simp add: Defect_init_def)
  have r: "is_resolved ?r" by simp
  have a: "resolve 9 ?r ''eve'' ''again''
             = (Raised (DefectAlreadyResolvedException ''Defect already resolved.''), ?r)"
    using resolve_contract [of ?r 9 "''eve''" "''again''"] r by blast
  obtain d' where b: "resolve 7 ?d ''bob'' ''tightened'' = (Returned (), d')"
    using resolve_contract [of ?d 7 "''bob''" "''tightened''"] u by blast
  have "d' = ?r" using b u by (simp add: resolve_def)
  with a b show ?thesis by simp
qed

section \<open>Strings: lower-casing and containment\<close>

lemma str_in_sublist: "str_in w s = sublist w s"
  by (induction s) (auto simp: sublist_Cons_right)

lemma any_word_in_iff:
  "any_word_in ws desc = (\<exists>w\<in>set ws. \<exists>pre post. desc = pre @ w @ post)"
  by (auto simp: any_word_in_def list_ex_iff str_in_sublist sublist_def)

lemma sublist_lower: "sublist w s \<Longrightarrow> sublist (lower w) (lower s)"
  unfolding sublist_def lower_def by (metis map_append)

lemma of_char_lower_char:
  "(of_char (lower_char c) :: nat) =
     (let n = of_char c
      in if (65 \<le> n \<and> n \<le> 90) \<or> (192 \<le> n \<and> n \<le> 222 \<and> n \<noteq> 215) then n + 32 else n)"
  by (simp add: lower_char_def Let_def)

text \<open>A small letter is the lower-casing of itself and of its capital only.\<close>

lemma lower_char_letter:
  assumes "97 \<le> (of_char x :: nat)" "(of_char x :: nat) \<le> 122"
    and "(of_char y :: nat) + 32 = of_char x"
  shows "(lower_char c = x) = (c = x \<or> c = y)"
proof -
  have "(lower_char c = x) = ((of_char (lower_char c) :: nat) = of_char x)" by simp
  also have "\<dots> = ((of_char c :: nat) = of_char x \<or> (of_char c :: nat) = of_char y)"
  proof -
    define n a b where "n = (of_char c :: nat)" and "a = (of_char x :: nat)"
      and "b = (of_char y :: nat)"
    have "97 \<le> a" "a \<le> 122" "b + 32 = a" using assms by (simp_all add: a_def b_def)
    then have "((if (65 \<le> n \<and> n \<le> 90) \<or> (192 \<le> n \<and> n \<le> 222 \<and> n \<noteq> 215)
                 then n + 32 else n) = a) = (n = a \<or> n = b)"
      by auto
    then show ?thesis
      unfolding of_char_lower_char Let_def n_def a_def b_def .
  qed
  also have "\<dots> = (c = x \<or> c = y)" by simp
  finally show ?thesis .
qed

lemma lower_char_c: "(lower_char c = CHR ''c'') = (c = CHR ''c'' \<or> c = CHR ''C'')"
  by (rule lower_char_letter) simp_all

lemma lower_char_r: "(lower_char c = CHR ''r'') = (c = CHR ''r'' \<or> c = CHR ''R'')"
  by (rule lower_char_letter) simp_all

lemma lower_char_i: "(lower_char c = CHR ''i'') = (c = CHR ''i'' \<or> c = CHR ''I'')"
  by (rule lower_char_letter) simp_all

lemma lower_char_t: "(lower_char c = CHR ''t'') = (c = CHR ''t'' \<or> c = CHR ''T'')"
  by (rule lower_char_letter) simp_all

lemma lower_char_a: "(lower_char c = CHR ''a'') = (c = CHR ''a'' \<or> c = CHR ''A'')"
  by (rule lower_char_letter) simp_all

lemma lower_char_l: "(lower_char c = CHR ''l'') = (c = CHR ''l'' \<or> c = CHR ''L'')"
  by (rule lower_char_letter) simp_all

text \<open>
  The tags whose lower-casing is \<open>critical\<close> are the eight-letter strings that have, at
  each position, the small or the capital letter of that position.
\<close>

lemma lower_critical_iff:
  "(lower tag = ''critical'') =
     list_all2 (\<lambda>c p. c \<in> set p) tag
       [''cC'', ''rR'', ''iI'', ''tT'', ''iI'', ''cC'', ''aA'', ''lL'']"
  unfolding lower_def
  by (simp only: map_eq_Cons_conv list_all2_Cons2 list_all2_Nil2 map_is_Nil_conv
        lower_char_c lower_char_r lower_char_i lower_char_t lower_char_a lower_char_l
        set_simps insert_iff empty_iff simp_thms)

section \<open>DefectFactory.create\_defect\<close>

text \<open>
  Claim C9. A tag that is \<open>critical\<close> up to the case of each letter (which is what the
  comparison of the lower-cased tag accepts) gives a CriticalDefect, with impact level
  CRITICAL and priority weight 10; every other tag gives a MinorDefect, with impact
  level Minor and weight 1. The detail is stored as the attribute of the subclass, the
  other fields are those of a new unresolved defect, and the weight is determined by
  the subclass alone.
\<close>

theorem create_defect_variant:
  "(list_all2 (\<lambda>c p. c \<in> set p) defect_type
        [''cC'', ''rR'', ''iI'', ''tT'', ''iI'', ''cC'', ''aA'', ''lL''] \<longrightarrow>
      create_defect now defect_type did task desc user detail
        = Defect_init now did task desc user (CriticalDefect detail)
      \<and> get_impact_level (create_defect now defect_type did task desc user detail) = ''CRITICAL''
      \<and> get_priority_weight (create_defect now defect_type did task desc user detail) = 10)
   \<and> (\<not> list_all2 (\<lambda>c p. c \<in> set p) defect_type
        [''cC'', ''rR'', ''iI'', ''tT'', ''iI'', ''cC'', ''aA'', ''lL''] \<longrightarrow>
      create_defect now defect_type did task desc user detail
        = Defect_init now did task desc user (MinorDefect detail)
      \<and> get_impact_level (create_defect now defect_type did task desc user detail) = ''Minor''
      \<and> get_priority_weight (create_defect now defect_type did task desc user detail) = 1)
   \<and> (variant d = variant d' \<longrightarrow> get_priority_weight d = get_priority_weight d')
   \<and> get_priority_weight (d\<lparr> variant := CriticalDefect a \<rparr>) = 10
   \<and> get_priority_weight (d\<lparr> variant := MinorDefect a \<rparr>) = 1"
  unfolding lower_critical_iff [symmetric]
  by (simp add: create_defect_def new_CriticalDefect_def new_MinorDefect_def
        get_impact_level_def get_priority_weight_def Defect_init_def)

theorem create_defect_variant_witness:
  "(create_defect 3 ''CriTicAL'' ''D-001'' ''weld'' ''Exposed wire'' ''ann'' ''N/A''
        = Defect_init 3 ''D-001'' ''weld'' ''Exposed wire'' ''ann'' (CriticalDefect ''N/A'')
      \<and> get_impact_level
          (create_defect 3 ''CriTicAL'' ''D-001'' ''weld'' ''Exposed wire'' ''ann'' ''N/A'') = ''CRITICAL''
      \<and> get_priority_weight
          (create_defect 3 ''CriTicAL'' ''D-001'' ''weld'' ''Exposed wire'' ''ann'' ''N/A'') = 10)
   \<and> (create_defect 3 ''Minor'' ''D-002'' ''paint'' ''scratch'' ''bob'' ''door''
        = Defect_init 3 ''D-002'' ''paint'' ''scratch'' ''bob'' (MinorDefect ''door'')
      \<and> get_impact_level
          (create_defect 3 ''Minor'' ''D-002'' ''paint'' ''scratch'' ''bob'' ''door'') = ''Minor''
      \<and> get_priority_weight
          (create_defect 3 ''Minor'' ''D-002'' ''paint'' ''scratch'' ''bob'' ''door'') = 1)
   \<and> (create_defect 3 ''critical '' ''D-003'' ''paint'' ''scratch'' ''bob'' ''door''
        = Defect_init 3 ''D-003'' ''paint'' ''scratch'' ''bob'' (MinorDefect ''door'')
      \<and> get_impact_level
          (create_defect 3 ''critical '' ''D-003'' ''paint'' ''scratch'' ''bob'' ''door'') = ''Minor''
      \<and> get_priority_weight
          (create_defect 3 ''critical '' ''D-003'' ''paint'' ''scratch'' ''bob'' ''door'') = 1)"
proof -
  have c: "list_all2 (\<lambda>c p. c \<in> set p) ''CriTicAL''
        [''cC'', ''rR'', ''iI'', ''tT'', ''iI'', ''cC'', ''aA'', ''lL'']"
    by simp
  have m: "\<not> list_all2 (\<lambda>c p. c \<in> set p) ''Minor''
        [''cC'', ''rR'', ''iI'', ''tT'', ''iI'', ''cC'', ''aA'', ''lL'']"
    by simp
  have s: "\<not> list_all2 (\<lambda>c p. c \<in> set p) ''critical ''
        [''cC'', ''rR'', ''iI'', ''tT'', ''iI'', ''cC'', ''aA'', ''lL'']"
    by simp
  have 1: "create_defect 3 ''CriTicAL'' ''D-001'' ''weld'' ''Exposed wire'' ''ann'' ''N/A''
        = Defect_init 3 ''D-001'' ''weld'' ''Exposed wire'' ''ann'' (CriticalDefect ''N/A'')
      \<and> get_impact_level
          (create_defect 3 ''CriTicAL'' ''D-001'' ''weld'' ''Exposed wire'' ''ann'' ''N/A'') = ''CRITICAL''
      \<and> get_priority_weight
          (create_defect 3 ''CriTicAL'' ''D-001'' ''weld'' ''Exposed wire'' ''ann'' ''N/A'') = 10"
    using create_defect_variant [of "''CriTicAL''" 3 "''D-001''" "''weld''" "''Exposed wire''"
        "''ann''" "''N/A''", THEN conjunct1] c
    by (rule mp)
  have 2: "create_defect 3 ''Minor'' ''D-002'' ''paint'' ''scratch'' ''bob'' ''door''
        = Defect_init 3 ''D-002'' ''paint'' ''scratch'' ''bob'' (MinorDefect ''door'')
      \<and> get_impact_level
          (create_defect 3 ''Minor'' ''D-002'' ''paint'' ''scratch'' ''bob'' ''door'') = ''Minor''
      \<and> get_priority_weight
          (create_defect 3 ''Minor'' ''D-002'' ''paint'' ''scratch'' ''bob'' ''door'') = 1"
    using create_defect_variant [of "''Minor''" 3 "''D-002''" "''paint''" "''scratch''"
        "''bob''" "''door''", THEN conjunct2, THEN conjunct1] m
    by (rule mp)
  have 3: "create_defect 3 ''critical '' ''D-003'' ''paint'' ''scratch'' ''bob'' ''door''
        = Defect_init 3 ''D-003'' ''paint'' ''scratch'' ''bob'' (MinorDefect ''door'')
      \<and> get_impact_level
          (create_defect 3 ''critical '' ''D-003'' ''paint'' ''scratch'' ''bob'' ''door'') = ''Minor''
      \<and> get_priority_weight
          (create_defect 3 ''critical '' ''D-003'' ''paint'' ''scratch'' ''bob'' ''door'') = 1"
    using create_defect_variant [of "''critical ''" 3 "''D-003''" "''paint''" "''scratch''"
        "''bob''" "''door''", THEN conjunct2, THEN conjunct1] s
    by (rule mp)
  show ?thesis by (rule conjI [OF 1 conjI [OF 2 3]])
qed

section \<open>ResolutionEngine.suggest\_fix\<close>

lemma match_exposed: "any_word_in electrical_words (lower ''Exposed wire causing shock hazard'')"
  by code_simp

lemma match_paint:
  "\<not> any_word_in electrical_words (lower ''small paint scratch'')
   \<and> any_word_in cosmetic_words (lower ''small paint scratch'')"
  by code_simp

lemma match_reboots:
  "\<not> any_word_in electrical_words (lower ''unit randomly reboots'')
   \<and> \<not> any_word_in cosmetic_words (lower ''unit randomly reboots'')
   \<and> \<not> any_word_in hardware_words (lower ''unit randomly reboots'')
   \<and> any_word_in software_words (lower ''unit randomly reboots'')"
  by code_simp

lemma match_loose:
  "\<not> any_word_in electrical_words (lower ''assembly loose'')
   \<and> \<not> any_word_in cosmetic_words (lower ''assembly loose'')
   \<and> \<not> any_word_in hardware_words (lower ''assembly loose'')
   \<and> \<not> any_word_in software_words (lower ''assembly loose'')"
  by code_simp

lemma impact_critical_iff: "(get_impact_level d = ''CRITICAL'') = (\<exists>a. variant d = CriticalDefect a)"
  by (cases "variant d") (simp_all add: get_impact_level_def)

text \<open>
  Claim C5. The suggestion depends on the description and the impact level only. The
  four keyword lists are tried on the lower-cased description in the order electrical,
  cosmetic, missing hardware, software, and the first list with a keyword in the
  description gives the text; with no match the text is the escalation text for a
  CRITICAL defect and the Tier-1 text otherwise. The four descriptions of the
  specification give the electrical, the cosmetic and the software text whatever the
  severity, and for "assembly loose" the escalation text when Critical, the Tier-1 text
  when Minor.
\<close>

theorem suggest_fix_rules:
  "(any_word_in electrical_words (lower (description d)) \<longrightarrow> suggest_fix d = electrical_text)
   \<and> (\<not> any_word_in electrical_words (lower (description d))
        \<and> any_word_in cosmetic_words (lower (description d)) \<longrightarrow> suggest_fix d = cosmetic_text)
   \<and> (\<not> any_word_in electrical_words (lower (description d))
        \<and> \<not> any_word_in cosmetic_words (lower (description d))
        \<and> any_word_in hardware_words (lower (description d)) \<longrightarrow> suggest_fix d = hardware_text)
   \<and> (\<not> any_word_in electrical_words (lower (description d))
        \<and> \<not> any_word_in cosmetic_words (lower (description d))
        \<and> \<not> any_word_in hardware_words (lower (description d))
        \<and> any_word_in software_words (lower (description d)) \<longrightarrow> suggest_fix d = software_text)
   \<and> (\<not> any_word_in electrical_words (lower (description d))
        \<and> \<not> any_word_in cosmetic_words (lower (description d))
        \<and> \<not> any_word_in hardware_words (lower (description d))
        \<and> \<not> any_word_in software_words (lower (description d)) \<longrightarrow>
          suggest_fix d = (if get_impact_level d = ''CRITICAL'' then escalation_text else tier1_text))
   \<and> (description d = description d' \<and> get_impact_level d = get_impact_level d' \<longrightarrow>
          suggest_fix d = suggest_fix d')
   \<and> (description d = ''Exposed wire causing shock hazard'' \<longrightarrow> suggest_fix d = electrical_text)
   \<and> (description d = ''small paint scratch'' \<longrightarrow> suggest_fix d = cosmetic_text)
   \<and> (description d = ''unit randomly reboots'' \<longrightarrow> suggest_fix d = software_text)
   \<and> (description d = ''assembly loose'' \<longrightarrow>
          suggest_fix d = (case variant d of CriticalDefect _ \<Rightarrow> escalation_text
                                           | MinorDefect _ \<Rightarrow> tier1_text))"
proof (intro conjI impI)
  assume "description d = ''Exposed wire causing shock hazard''"
  then show "suggest_fix d = electrical_text"
    using match_exposed by (simp only: suggest_fix_def Let_def if_True)
next
  assume "description d = ''small paint scratch''"
  then show "suggest_fix d = cosmetic_text"
    using match_paint by (simp only: suggest_fix_def Let_def if_True if_False)
next
  assume "description d = ''unit randomly reboots''"
  then show "suggest_fix d = software_text"
    using match_reboots by (simp only: suggest_fix_def Let_def if_True if_False)
next
  assume a: "description d = ''assembly loose''"
  have "suggest_fix d = (if get_impact_level d = ''CRITICAL'' then escalation_text else tier1_text)"
    using a match_loose by (simp only: suggest_fix_def Let_def if_True if_False)
  also have "\<dots> = (case variant d of CriticalDefect _ \<Rightarrow> escalation_text
                                           | MinorDefect _ \<Rightarrow> tier1_text)"
    by (cases "variant d") (simp_all add: impact_critical_iff)
  finally show "suggest_fix d = (case variant d of CriticalDefect _ \<Rightarrow> escalation_text
                                           | MinorDefect _ \<Rightarrow> tier1_text)" .
qed (simp_all only: suggest_fix_def Let_def if_True if_False simp_thms)


theorem suggest_fix_rules_witness:
  "suggest_fix (create_defect 0 ''Critical'' ''D-001'' ''frame'' ''assembly loose'' ''ann'' ''N/A'')
     = escalation_text
   \<and> suggest_fix (create_defect 0 ''Minor'' ''D-002'' ''frame'' ''assembly loose'' ''ann'' ''N/A'')
     = tier1_text"
proof -
  let ?c = "create_defect 0 ''Critical'' ''D-001'' ''frame'' ''assembly loose'' ''ann'' ''N/A''"
  let ?m = "create_defect 0 ''Minor'' ''D-002'' ''frame'' ''assembly loose'' ''ann'' ''N/A''"
  have dc: "description ?c = ''assembly loose''" by code_simp
  have dm: "description ?m = ''assembly loose''" by code_simp
  have vc: "variant ?c = CriticalDefect ''N/A''" by code_simp
  have vm: "variant ?m = MinorDefect ''N/A''" by code_simp
  have "suggest_fix ?c = (case variant ?c of CriticalDefect _ \<Rightarrow> escalation_text
                                           | MinorDefect _ \<Rightarrow> tier1_text)"
    using suggest_fix_rules [of ?c, THEN conjunct2, THEN conjunct2, THEN conjunct2,
      THEN conjunct2, THEN conjunct2, THEN conjunct2, THEN conjunct2, THEN conjunct2,
      THEN conjunct2] dc
    by (rule mp)
  then have 1: "suggest_fix ?c = escalation_text" by (simp only: vc variant.case)
  have "suggest_fix ?m = (case variant ?m of CriticalDefect _ \<Rightarrow> escalation_text
                                           | MinorDefect _ \<Rightarrow> tier1_text)"
    using suggest_fix_rules [of ?m, THEN conjunct2, THEN conjunct2, THEN conjunct2,
      THEN conjunct2, THEN conjunct2, THEN conjunct2, THEN conjunct2, THEN conjunct2,
      THEN conjunct2] dm
    by (rule mp)
  then have 2: "suggest_fix ?m = tier1_text" by (simp only: vm variant.case)
  show ?thesis by (rule conjI [OF 1 2])
qed

lemma boot_in_reboots: "sublist ''boot'' (lower ''reboots'')"
  by code_simp

lemma wire_in_rewired: "sublist ''wire'' (lower ''rewired'')"
  by code_simp

lemma reboots_matches: "sublist ''reboots'' desc \<Longrightarrow> any_word_in software_words (lower desc)"
proof -
  assume "sublist ''reboots'' desc"
  then have "sublist (lower ''reboots'') (lower desc)" by (rule sublist_lower)
  with boot_in_reboots have "sublist ''boot'' (lower desc)"
    by (rule sublist_order.order_trans)
  then show ?thesis
    by (simp add: any_word_in_def software_words_def str_in_sublist)
qed

lemma rewired_matches: "sublist ''rewired'' desc \<Longrightarrow> any_word_in electrical_words (lower desc)"
proof -
  assume "sublist ''rewired'' desc"
  then have "sublist (lower ''rewired'') (lower desc)" by (rule sublist_lower)
  with wire_in_rewired have "sublist ''wire'' (lower desc)"
    by (rule sublist_order.order_trans)
  then show ?thesis
    by (simp add: any_word_in_def electrical_words_def str_in_sublist)
qed

text \<open>
  Claim C10. A keyword list matches exactly when one of its keywords occurs somewhere
  inside the lower-cased description, as a piece of it and not as a word of its own:
  any description containing "reboots" matches the software keyword "boot", and any
  description containing "rewired" matches the electrical keyword "wire" and so gets
  the electrical text.
\<close>

theorem keyword_match_is_substring:
  "any_word_in ws (lower desc) = (\<exists>w\<in>set ws. \<exists>pre post. lower desc = pre @ w @ post)
   \<and> (sublist ''reboots'' desc \<longrightarrow> any_word_in software_words (lower desc))
   \<and> (sublist ''rewired'' desc \<longrightarrow> any_word_in electrical_words (lower desc))
   \<and> (sublist ''rewired'' (description d) \<longrightarrow> suggest_fix d = electrical_text)
   \<and> (sublist ''reboots'' (description d)
        \<and> \<not> any_word_in electrical_words (lower (description d))
        \<and> \<not> any_word_in cosmetic_words (lower (description d))
        \<and> \<not> any_word_in hardware_words (lower (description d)) \<longrightarrow>
          suggest_fix d = software_text)"
proof (intro conjI impI)
  show "any_word_in ws (lower desc) = (\<exists>w\<in>set ws. \<exists>pre post. lower desc = pre @ w @ post)"
    by (rule any_word_in_iff)
next
  assume "sublist ''reboots'' desc"
  then show "any_word_in software_words (lower desc)" by (rule reboots_matches)
next
  assume "sublist ''rewired'' desc"
  then show "any_word_in electrical_words (lower desc)" by (rule rewired_matches)
next
  assume "sublist ''rewired'' (description d)"
  then have "any_word_in electrical_words (lower (description d))" by (rule rewired_matches)
  then show "suggest_fix d = electrical_text"
    by (simp only: suggest_fix_def Let_def if_True)
next
  assume a: "sublist ''reboots'' (description d)
        \<and> \<not> any_word_in electrical_words (lower (description d))
        \<and> \<not> any_word_in cosmetic_words (lower (description d))
        \<and> \<not> any_word_in hardware_words (lower (description d))"
  then have "any_word_in software_words (lower (description d))"
    using reboots_matches by blast
  with a show "suggest_fix d = software_text"
    by (simp only: suggest_fix_def Let_def if_True if_False)
qed

theorem keyword_match_is_substring_witness:
  "suggest_fix (create_defect 0 ''Minor'' ''D-007'' ''panel'' ''Panel was rewired'' ''ann'' ''N/A'')
     = electrical_text"
proof -
  let ?d = "create_defect 0 ''Minor'' ''D-007'' ''panel'' ''Panel was rewired'' ''ann'' ''N/A''"
  have "sublist ''rewired'' (description ?d)" by code_simp
  with keyword_match_is_substring [of _ _ ?d, THEN conjunct2, THEN conjunct2, THEN conjunct2,
      THEN conjunct1]
  show ?thesis by (rule mp)
qed


section \<open>The triage order and the sorted view\<close>

lemma weight_cases: "get_priority_weight d = 1 \<or> get_priority_weight d = 10"
  by (cases "variant d") (simp_all add: get_priority_weight_def)

lemma lt_iff:
  "lt a b =
     ((\<not> is_resolved a \<and> is_resolved b)
      \<or> (is_resolved a = is_resolved b
          \<and> (get_priority_weight b < get_priority_weight a
              \<or> (get_priority_weight a = get_priority_weight b \<and> logged_at b < logged_at a))))"
  by (auto simp: lt_def Let_def)

lemma lt_asym: "lt a b \<Longrightarrow> \<not> lt b a"
  by (auto simp: lt_iff)

lemma lt_trans: "lt a b \<Longrightarrow> lt b c \<Longrightarrow> lt a c"
  by (auto simp: lt_iff)

lemma lt_neg_trans: "\<not> lt a b \<Longrightarrow> \<not> lt b c \<Longrightarrow> \<not> lt a c"
  by (auto simp: lt_iff)

lemma tie_iff:
  "(\<not> lt a b \<and> \<not> lt b a) =
     (is_resolved a = is_resolved b \<and> get_priority_weight a = get_priority_weight b
      \<and> logged_at a = logged_at b)"
  by (auto simp: lt_iff)

lemma mset_insert_lt: "mset (insert_lt x ys) = add_mset x (mset ys)"
  by (induction ys) simp_all

lemma mset_list_sort: "mset (list_sort xs) = mset xs"
  by (induction xs) (simp_all add: mset_insert_lt)

lemma set_insert_lt: "set (insert_lt x ys) = insert x (set ys)"
  by (induction ys) auto

lemma sorted_insert_lt:
  "sorted_wrt (\<lambda>a b. \<not> lt b a) ys \<Longrightarrow> sorted_wrt (\<lambda>a b. \<not> lt b a) (insert_lt x ys)"
proof (induction ys)
  case Nil
  then show ?case by simp
next
  case (Cons y ys)
  show ?case
  proof (cases "lt y x")
    case True
    then have "\<not> lt x y" by (rule lt_asym)
    with True Cons show ?thesis by (auto simp: set_insert_lt)
  next
    case False
    have "\<forall>z\<in>set ys. \<not> lt z x"
    proof
      fix z assume "z \<in> set ys"
      with Cons.prems have "\<not> lt z y" by simp
      then show "\<not> lt z x" using False by (rule lt_neg_trans)
    qed
    with False Cons.prems show ?thesis by simp
  qed
qed

lemma sorted_list_sort: "sorted_wrt (\<lambda>a b. \<not> lt b a) (list_sort xs)"
  by (induction xs) (simp_all add: sorted_insert_lt)

lemma filter_tie_insert_lt:
  "filter (\<lambda>d. \<not> lt d k \<and> \<not> lt k d) (insert_lt x ys)
     = filter (\<lambda>d. \<not> lt d k \<and> \<not> lt k d) (x # ys)"
proof (induction ys)
  case Nil
  then show ?case by simp
next
  case (Cons y ys)
  show ?case
  proof (cases "lt y x")
    case True
    then have "\<not> ((\<not> lt y k \<and> \<not> lt k y) \<and> (\<not> lt x k \<and> \<not> lt k x))"
      unfolding tie_iff by (auto simp: lt_iff)
    with True Cons show ?thesis by auto
  next
    case False
    then show ?thesis by simp
  qed
qed

lemma filter_tie_list_sort:
  "filter (\<lambda>d. \<not> lt d k \<and> \<not> lt k d) (list_sort xs) = filter (\<lambda>d. \<not> lt d k \<and> \<not> lt k d) xs"
  by (induction xs) (simp_all add: filter_tie_insert_lt)

text \<open>
  Claim C1. The comparison has three tiers: an unresolved defect is before a resolved
  one; with the same resolved status the higher priority weight is first; with the same
  status and weight the later \<open>logged_at\<close> is first; and with all three equal neither
  is before the other. The sorted view is a rearrangement of the log in which no defect
  stands after one it is before, and defects that tie keep the order they have in the log.
\<close>

theorem triage_order:
  "(\<not> is_resolved a \<and> is_resolved b \<longrightarrow> lt a b \<and> \<not> lt b a)
   \<and> (is_resolved a = is_resolved b \<and> get_priority_weight b < get_priority_weight a \<longrightarrow>
        lt a b \<and> \<not> lt b a)
   \<and> (is_resolved a = is_resolved b \<and> get_priority_weight a = get_priority_weight b
        \<and> logged_at b < logged_at a \<longrightarrow> lt a b \<and> \<not> lt b a)
   \<and> (is_resolved a = is_resolved b \<and> get_priority_weight a = get_priority_weight b
        \<and> logged_at a = logged_at b \<longrightarrow> \<not> lt a b \<and> \<not> lt b a)
   \<and> mset (get_all_defects_sorted c) = mset (log_database c)
   \<and> sorted_wrt (\<lambda>x y. \<not> lt y x) (get_all_defects_sorted c)
   \<and> filter (\<lambda>d. \<not> lt d k \<and> \<not> lt k d) (get_all_defects_sorted c)
        = filter (\<lambda>d. \<not> lt d k \<and> \<not> lt k d) (log_database c)"
proof (intro conjI impI)
  show "mset (get_all_defects_sorted c) = mset (log_database c)"
    by (simp add: get_all_defects_sorted_def mset_list_sort)
  show "sorted_wrt (\<lambda>x y. \<not> lt y x) (get_all_defects_sorted c)"
    by (simp add: get_all_defects_sorted_def sorted_list_sort)
  show "filter (\<lambda>d. \<not> lt d k \<and> \<not> lt k d) (get_all_defects_sorted c)
        = filter (\<lambda>d. \<not> lt d k \<and> \<not> lt k d) (log_database c)"
    by (simp add: get_all_defects_sorted_def filter_tie_list_sort)
qed (auto simp: lt_iff)

theorem triage_order_witness:
  "lt (Defect_init 5 ''D-002'' ''paint'' ''scratch'' ''ann'' (MinorDefect ''N/A''))
      ((Defect_init 1 ''D-001'' ''weld'' ''wire'' ''ann'' (CriticalDefect ''N/A''))
         \<lparr> is_resolved := True, resolved_at := Some 9 \<rparr>)
   \<and> \<not> lt ((Defect_init 1 ''D-001'' ''weld'' ''wire'' ''ann'' (CriticalDefect ''N/A''))
         \<lparr> is_resolved := True, resolved_at := Some 9 \<rparr>)
      (Defect_init 5 ''D-002'' ''paint'' ''scratch'' ''ann'' (MinorDefect ''N/A''))"
proof -
  let ?a = "Defect_init 5 ''D-002'' ''paint'' ''scratch'' ''ann'' (MinorDefect ''N/A'')"
  let ?b = "(Defect_init 1 ''D-001'' ''weld'' ''wire'' ''ann'' (CriticalDefect ''N/A''))
         \<lparr> is_resolved := True, resolved_at := Some 9 \<rparr>"
  have h: "\<not> is_resolved ?a \<and> is_resolved ?b" by (simp add: Defect_init_def)
  from triage_order [of ?a ?b, THEN conjunct1] h show ?thesis by (rule mp)
qed

text \<open>
  A log of a resolved Critical defect, two unresolved Minor ones and an unresolved
  Critical one, in the order of their reports, and its sorted view.
\<close>

lemma get_all_defects_sorted_example:
  "get_all_defects_sorted
     \<lparr> log_database =
         [(Defect_init 1 ''D-001'' ''weld'' ''wire'' ''ann'' (CriticalDefect ''N/A''))
            \<lparr> is_resolved := True, resolved_at := Some 9 \<rparr>,
          Defect_init 2 ''D-002'' ''paint'' ''scratch'' ''ann'' (MinorDefect ''N/A''),
          Defect_init 3 ''D-003'' ''paint'' ''dent'' ''bob'' (MinorDefect ''N/A''),
          Defect_init 4 ''D-004'' ''weld'' ''shock'' ''bob'' (CriticalDefect ''N/A'')],
       io_trace = [] \<rparr>
   = [Defect_init 4 ''D-004'' ''weld'' ''shock'' ''bob'' (CriticalDefect ''N/A''),
      Defect_init 3 ''D-003'' ''paint'' ''dent'' ''bob'' (MinorDefect ''N/A''),
      Defect_init 2 ''D-002'' ''paint'' ''scratch'' ''ann'' (MinorDefect ''N/A''),
      (Defect_init 1 ''D-001'' ''weld'' ''wire'' ''ann'' (CriticalDefect ''N/A''))
         \<lparr> is_resolved := True, resolved_at := Some 9 \<rparr>]"
  by (simp add: get_all_defects_sorted_def lt_def Defect_init_def get_priority_weight_def)

section \<open>Lookup in the log and the effect of the commands\<close>

lemma find_index_SomeD:
  "find_index ds did = Some i \<Longrightarrow>
     i < length ds \<and> lower (defect_id (ds ! i)) = lower did
     \<and> (\<forall>j<i. lower (defect_id (ds ! j)) \<noteq> lower did)"
proof (induction ds arbitrary: i)
  case Nil
  then show ?case by simp
next
  case (Cons d ds)
  show ?case
  proof (cases "lower (defect_id d) = lower did")
    case True
    with Cons.prems show ?thesis by simp
  next
    case False
    with Cons.prems obtain k where k: "find_index ds did = Some k" "i = Suc k" by auto
    from Cons.IH [OF k(1)] False k(2) show ?thesis
      by (auto simp: less_Suc_eq_0_disj)
  qed
qed

lemma find_index_None_iff:
  "(find_index ds did = None) = (\<forall>d\<in>set ds. lower (defect_id d) \<noteq> lower did)"
  by (induction ds) auto

lemma find_defect_None_iff:
  "(find_defect ds did = None) = (\<forall>d\<in>set ds. lower (defect_id d) \<noteq> lower did)"
  by (simp add: find_defect_def find_index_None_iff)

lemma find_index_append:
  "find_index (ds @ es) did =
     (case find_index ds did of Some i \<Rightarrow> Some i
      | None \<Rightarrow> map_option (\<lambda>i. length ds + i) (find_index es did))"
proof (induction ds)
  case Nil
  show ?case by (cases "find_index es did") simp_all
next
  case (Cons d ds)
  then show ?case by (cases "find_index es did") (auto split: option.splits)
qed

lemma find_defect_snoc:
  "find_defect (ds @ [d]) (defect_id d) =
     (case find_defect ds (defect_id d) of Some d' \<Rightarrow> Some d' | None \<Rightarrow> Some d)"
proof (cases "find_index ds (defect_id d)")
  case None
  then show ?thesis by (simp add: find_defect_def find_index_append)
next
  case (Some i)
  then have "i < length ds" using find_index_SomeD by blast
  with Some show ?thesis by (simp add: find_defect_def find_index_append nth_append)
qed

lemma find_defect_SomeD:
  "find_defect ds did = Some d \<Longrightarrow> d \<in> set ds \<and> lower (defect_id d) = lower did"
  using find_index_SomeD by (fastforce simp: find_defect_def)

lemma report_defect_eq:
  "report_defect dk c d =
     ((case variant d of
         CriticalDefect _ \<Rightarrow> Raised (CriticalHaltException
            (''!!! SYSTEM HALT !!!'' @ [char_of (10::nat)] @ ''CRITICAL DEFECT LOGGED: '' @ description d))
       | MinorDefect _ \<Rightarrow> Returned ()),
      \<lparr> log_database = log_database c @ [d],
        io_trace = io_trace c @
          (case dk of DiskOk \<Rightarrow> [PickleDump (log_database c @ [d]) True]
           | DiskError e \<Rightarrow> [PickleDump (log_database c @ [d]) False,
                              AuditError (''Failed to save database state: '' @ e)])
          @ [AuditInfo (''New defect logged: '' @ defect_id d)] \<rparr>)"
  by (cases "variant d"; cases dk)
     (simp_all add: report_defect_def force_save_data_def add_defect_def Let_def)

lemma process_resolution_eq:
  "process_resolution dk now c did manager_name details =
     (case find_index (log_database c) did of
        None \<Rightarrow> (Raised (ValueError (''Error: Defect ID '' @ [CHR 0x27] @ did @ [CHR 0x27] @ '' not found.'')), c)
      | Some i \<Rightarrow>
          if is_resolved (log_database c ! i)
          then (Raised (DefectAlreadyResolvedException ''Defect already resolved.''), c)
          else (Returned (),
                force_save_data dk
                  (c\<lparr> log_database := (log_database c)
                        [i := (log_database c ! i)\<lparr> is_resolved := True, resolved_by := manager_name,
                               resolution_details := details, resolved_at := Some now \<rparr>] \<rparr>)))"
  by (simp add: process_resolution_def resolve_def split: option.splits)

lemma length_filter_eq_iff:
  "(length (filter P xs) = length xs) = (\<forall>x\<in>set xs. P x)"
proof
  assume "length (filter P xs) = length xs"
  then show "\<forall>x\<in>set xs. P x"
    using length_filter_less [of _ xs P] by fastforce
next
  assume "\<forall>x\<in>set xs. P x"
  then show "length (filter P xs) = length xs" by simp
qed

lemma clear_resolved_defects_eq:
  "clear_resolved_defects dk c =
     (if \<forall>d\<in>set (log_database c). \<not> is_resolved d
      then (Raised (RuntimeError ''No resolved defects found to clear.''), c)
      else (Returned (),
            force_save_data dk (c\<lparr> log_database := filter (\<lambda>d. \<not> is_resolved d) (log_database c) \<rparr>)))"
proof (cases "\<forall>d\<in>set (log_database c). \<not> is_resolved d")
  case True
  then have "filter (\<lambda>d. \<not> is_resolved d) (log_database c) = log_database c" by simp
  with True show ?thesis
    by (simp add: clear_resolved_defects_def remove_resolved_defects_def Let_def)
next
  case False
  then have "length (filter (\<lambda>d. \<not> is_resolved d) (log_database c)) \<noteq> length (log_database c)"
    using length_filter_eq_iff [of "\<lambda>d. \<not> is_resolved d" "log_database c"] by blast
  with False show ?thesis
    by (simp add: clear_resolved_defects_def remove_resolved_defects_def Let_def)
qed


lemma force_save_data_eq:
  "force_save_data dk c =
     c\<lparr> io_trace := io_trace c @
          (case dk of DiskOk \<Rightarrow> [PickleDump (log_database c) True]
           | DiskError e \<Rightarrow> [PickleDump (log_database c) False,
                              AuditError (''Failed to save database state: '' @ e)]) \<rparr>"
  by (cases dk) (simp_all add: force_save_data_def)

lemma force_save_data_first:
  "take (Suc (length (io_trace c))) (io_trace (force_save_data dk c))
     = io_trace c @ [PickleDump (log_database c) (dk = DiskOk)]"
  by (cases dk) (simp_all add: force_save_data_def)

section \<open>TrackerController.report\_defect\<close>

text \<open>
  Claim C2. Reporting a Critical defect raises CriticalHaltException with the halt
  message that ends in the defect's description, reporting a Minor defect returns
  normally. In both cases the defect has been appended to the log and the first thing
  done to the outside is the write of the log that already holds it; so a lookup of the
  defect's id in the log after the halt finds a defect with that id, and finds the
  reported defect itself when no defect had that id before.
\<close>

theorem report_defect_halt:
  "(variant d = CriticalDefect a \<longrightarrow>
      fst (report_defect dk c d) = Raised (CriticalHaltException
        (''!!! SYSTEM HALT !!!'' @ [char_of (10::nat)] @ ''CRITICAL DEFECT LOGGED: '' @ description d)))
   \<and> (variant d = MinorDefect a \<longrightarrow> fst (report_defect dk c d) = Returned ())
   \<and> log_database (snd (report_defect dk c d)) = log_database c @ [d]
   \<and> take (Suc (length (io_trace c))) (io_trace (snd (report_defect dk c d)))
        = io_trace c @ [PickleDump (log_database c @ [d]) (dk = DiskOk)]
   \<and> (\<exists>d'. find_defect (log_database (snd (report_defect dk c d))) (defect_id d) = Some d'
          \<and> lower (defect_id d') = lower (defect_id d))
   \<and> (find_defect (log_database c) (defect_id d) = None \<longrightarrow>
        find_defect (log_database (snd (report_defect dk c d))) (defect_id d) = Some d)"
proof (intro conjI impI)
  show "take (Suc (length (io_trace c))) (io_trace (snd (report_defect dk c d)))
        = io_trace c @ [PickleDump (log_database c @ [d]) (dk = DiskOk)]"
    by (cases dk) (simp_all add: report_defect_eq)
next
  show "\<exists>d'. find_defect (log_database (snd (report_defect dk c d))) (defect_id d) = Some d'
          \<and> lower (defect_id d') = lower (defect_id d)"
  proof (cases "find_defect (log_database c) (defect_id d)")
    case None
    then show ?thesis by (simp add: report_defect_eq find_defect_snoc)
  next
    case (Some d')
    then have "lower (defect_id d') = lower (defect_id d)" using find_defect_SomeD by blast
    with Some show ?thesis by (simp add: report_defect_eq find_defect_snoc)
  qed
qed (simp_all add: report_defect_eq find_defect_snoc)

theorem report_defect_halt_witness:
  "fst (report_defect DiskOk \<lparr> log_database = [], io_trace = [] \<rparr>
          (Defect_init 4 ''D-004'' ''weld'' ''shock'' ''bob'' (CriticalDefect ''N/A'')))
     = Raised (CriticalHaltException
        (''!!! SYSTEM HALT !!!'' @ [char_of (10::nat)] @ ''CRITICAL DEFECT LOGGED: '' @
           description (Defect_init 4 ''D-004'' ''weld'' ''shock'' ''bob'' (CriticalDefect ''N/A''))))"
proof -
  let ?d = "Defect_init 4 ''D-004'' ''weld'' ''shock'' ''bob'' (CriticalDefect ''N/A'')"
  have "variant ?d = CriticalDefect ''N/A''" by (simp add: Defect_init_def)
  with report_defect_halt [of ?d "''N/A''" DiskOk "\<lparr> log_database = [], io_trace = [] \<rparr>",
      THEN conjunct1]
  show ?thesis by (rule mp)
qed

section \<open>TrackerController.process\_resolution\<close>

text \<open>
  Claim C6. The lookup compares lower-cased ids and takes the first defect that matches.
  With no match the command raises ValueError (not found) and leaves the controller as
  it was. When the defect found is already resolved the command raises
  DefectAlreadyResolvedException, again with the controller, its trace of writes
  included, as it was. Otherwise the defect found is resolved in the log and the log is
  then written; the trace grows exactly when the command returns normally.
\<close>

theorem process_resolution_contract:
  "(find_defect (log_database c) did = None)
      = (\<forall>d\<in>set (log_database c). lower (defect_id d) \<noteq> lower did)
   \<and> (find_defect (log_database c) did = None \<longrightarrow>
        process_resolution dk now c did manager_name details
          = (Raised (ValueError (''Error: Defect ID '' @ [CHR 0x27] @ did @ [CHR 0x27] @ '' not found.'')), c))
   \<and> (find_index (log_database c) did = Some i \<longrightarrow>
        i < length (log_database c)
        \<and> find_defect (log_database c) did = Some (log_database c ! i)
        \<and> lower (defect_id (log_database c ! i)) = lower did
        \<and> (\<forall>j<i. lower (defect_id (log_database c ! j)) \<noteq> lower did))
   \<and> (find_index (log_database c) did = Some i \<and> is_resolved (log_database c ! i) \<longrightarrow>
        process_resolution dk now c did manager_name details
          = (Raised (DefectAlreadyResolvedException ''Defect already resolved.''), c))
   \<and> (find_index (log_database c) did = Some i \<and> \<not> is_resolved (log_database c ! i) \<longrightarrow>
        process_resolution dk now c did manager_name details
          = (Returned (),
             force_save_data dk
               (c\<lparr> log_database := (log_database c)
                     [i := (log_database c ! i)\<lparr> is_resolved := True, resolved_by := manager_name,
                            resolution_details := details, resolved_at := Some now \<rparr>] \<rparr>)))
   \<and> ((io_trace (snd (process_resolution dk now c did manager_name details)) \<noteq> io_trace c)
        = (fst (process_resolution dk now c did manager_name details) = Returned ()))"
proof (intro conjI impI)
  show "(find_defect (log_database c) did = None)
      = (\<forall>d\<in>set (log_database c). lower (defect_id d) \<noteq> lower did)"
    by (rule find_defect_None_iff)
next
  assume "find_defect (log_database c) did = None"
  then have "find_index (log_database c) did = None" by (simp add: find_defect_def)
  then show "process_resolution dk now c did manager_name details
          = (Raised (ValueError (''Error: Defect ID '' @ [CHR 0x27] @ did @ [CHR 0x27] @ '' not found.'')), c)"
    by (simp add: process_resolution_eq)
next
  assume a: "find_index (log_database c) did = Some i"
  from find_index_SomeD [OF a]
  show "i < length (log_database c)"
    and "lower (defect_id (log_database c ! i)) = lower did"
    and "\<forall>j<i. lower (defect_id (log_database c ! j)) \<noteq> lower did"
    by simp_all
  from a show "find_defect (log_database c) did = Some (log_database c ! i)"
    by (simp add: find_defect_def)
next
  assume "find_index (log_database c) did = Some i \<and> is_resolved (log_database c ! i)"
  then show "process_resolution dk now c did manager_name details
          = (Raised (DefectAlreadyResolvedException ''Defect already resolved.''), c)"
    by (simp add: process_resolution_eq)
next
  assume "find_index (log_database c) did = Some i \<and> \<not> is_resolved (log_database c ! i)"
  then show "process_resolution dk now c did manager_name details
          = (Returned (),
             force_save_data dk
               (c\<lparr> log_database := (log_database c)
                     [i := (log_database c ! i)\<lparr> is_resolved := True, resolved_by := manager_name,
                            resolution_details := details, resolved_at := Some now \<rparr>] \<rparr>))"
    by (simp add: process_resolution_eq)
next
  show "(io_trace (snd (process_resolution dk now c did manager_name details)) \<noteq> io_trace c)
        = (fst (process_resolution dk now c did manager_name details) = Returned ())"
    by (cases dk) (simp_all add: process_resolution_eq force_save_data_def split: option.splits)
qed

theorem process_resolution_contract_witness:
  "process_resolution DiskOk 9
       \<lparr> log_database = [Defect_init 2 ''D-002'' ''paint'' ''scratch'' ''ann'' (MinorDefect ''N/A'')],
         io_trace = [] \<rparr> ''d-002'' ''bob'' ''buffed''
     = (Returned (),
        \<lparr> log_database =
            [(Defect_init 2 ''D-002'' ''paint'' ''scratch'' ''ann'' (MinorDefect ''N/A''))
               \<lparr> is_resolved := True, resolved_by := ''bob'',
                 resolution_details := ''buffed'', resolved_at := Some 9 \<rparr>],
          io_trace =
            [PickleDump
               [(Defect_init 2 ''D-002'' ''paint'' ''scratch'' ''ann'' (MinorDefect ''N/A''))
                  \<lparr> is_resolved := True, resolved_by := ''bob'',
                    resolution_details := ''buffed'', resolved_at := Some 9 \<rparr>] True] \<rparr>)"
proof -
  let ?c = "\<lparr> log_database = [Defect_init 2 ''D-002'' ''paint'' ''scratch'' ''ann'' (MinorDefect ''N/A'')],
         io_trace = [] \<rparr>"
  have h: "find_index (log_database ?c) ''d-002'' = Some 0 \<and> \<not> is_resolved (log_database ?c ! 0)"
    by code_simp
  note r = process_resolution_contract [where c = ?c and did = "''d-002''" and i = 0
      and dk = DiskOk and now = 9 and manager_name = "''bob''" and details = "''buffed''",
      THEN conjunct2, THEN conjunct2, THEN conjunct2, THEN conjunct2, THEN conjunct1,
      THEN mp, OF h]
  show ?thesis unfolding r by (simp add: force_save_data_def)
qed

section \<open>TrackerController.clear\_resolved\_defects\<close>

text \<open>
  Claim C4. On a log with no resolved defect the command raises RuntimeError (nothing to
  clear) and the controller is as before: the same log and no write. On a log with a
  resolved defect it returns normally, the log is the old one with exactly the resolved
  defects left out, the others in their old order, and this log is then written.
\<close>

theorem clear_resolved_contract:
  "((\<forall>d\<in>set (log_database c). \<not> is_resolved d) \<longrightarrow>
      clear_resolved_defects dk c
        = (Raised (RuntimeError ''No resolved defects found to clear.''), c))
   \<and> ((\<exists>d\<in>set (log_database c). is_resolved d) \<longrightarrow>
      fst (clear_resolved_defects dk c) = Returned ()
      \<and> log_database (snd (clear_resolved_defects dk c))
          = filter (\<lambda>d. \<not> is_resolved d) (log_database c)
      \<and> io_trace (snd (clear_resolved_defects dk c))
          = io_trace c @
            (case dk of
               DiskOk \<Rightarrow> [PickleDump (filter (\<lambda>d. \<not> is_resolved d) (log_database c)) True]
             | DiskError e \<Rightarrow>
                 [PickleDump (filter (\<lambda>d. \<not> is_resolved d) (log_database c)) False,
                  AuditError (''Failed to save database state: '' @ e)]))
   \<and> set (log_database (snd (clear_resolved_defects dk c)))
        = {d \<in> set (log_database c). \<not> is_resolved d}
   \<and> subseq (log_database (snd (clear_resolved_defects dk c))) (log_database c)"
proof (intro conjI impI)
  assume "\<forall>d\<in>set (log_database c). \<not> is_resolved d"
  then show "clear_resolved_defects dk c
        = (Raised (RuntimeError ''No resolved defects found to clear.''), c)"
    by (simp add: clear_resolved_defects_eq)
next
  assume a: "\<exists>d\<in>set (log_database c). is_resolved d"
  then show "fst (clear_resolved_defects dk c) = Returned ()"
    by (auto simp: clear_resolved_defects_eq)
  from a show "log_database (snd (clear_resolved_defects dk c))
          = filter (\<lambda>d. \<not> is_resolved d) (log_database c)"
    by (auto simp: clear_resolved_defects_eq force_save_data_eq)
  from a show "io_trace (snd (clear_resolved_defects dk c))
          = io_trace c @
            (case dk of
               DiskOk \<Rightarrow> [PickleDump (filter (\<lambda>d. \<not> is_resolved d) (log_database c)) True]
             | DiskError e \<Rightarrow>
                 [PickleDump (filter (\<lambda>d. \<not> is_resolved d) (log_database c)) False,
                  AuditError (''Failed to save database state: '' @ e)])"
    by (cases dk) (auto simp: clear_resolved_defects_eq force_save_data_def)
next
  have l: "log_database (snd (clear_resolved_defects dk c))
          = filter (\<lambda>d. \<not> is_resolved d) (log_database c)"
    by (auto simp: clear_resolved_defects_eq force_save_data_eq)
  show "set (log_database (snd (clear_resolved_defects dk c)))
        = {d \<in> set (log_database c). \<not> is_resolved d}"
    unfolding l by simp
  show "subseq (log_database (snd (clear_resolved_defects dk c))) (log_database c)"
    unfolding l by simp
qed


theorem clear_resolved_contract_witness:
  "log_database (snd (clear_resolved_defects DiskOk
       \<lparr> log_database =
           [(Defect_init 1 ''D-001'' ''weld'' ''wire'' ''ann'' (CriticalDefect ''N/A''))
              \<lparr> is_resolved := True, resolved_at := Some 9 \<rparr>,
            Defect_init 2 ''D-002'' ''paint'' ''scratch'' ''ann'' (MinorDefect ''N/A'')],
         io_trace = [] \<rparr>))
     = [Defect_init 2 ''D-002'' ''paint'' ''scratch'' ''ann'' (MinorDefect ''N/A'')]
   \<and> clear_resolved_defects DiskOk
       \<lparr> log_database = [Defect_init 2 ''D-002'' ''paint'' ''scratch'' ''ann'' (MinorDefect ''N/A'')],
         io_trace = [] \<rparr>
     = (Raised (RuntimeError ''No resolved defects found to clear.''),
        \<lparr> log_database = [Defect_init 2 ''D-002'' ''paint'' ''scratch'' ''ann'' (MinorDefect ''N/A'')],
          io_trace = [] \<rparr>)"
proof -
  let ?c = "\<lparr> log_database =
           [(Defect_init 1 ''D-001'' ''weld'' ''wire'' ''ann'' (CriticalDefect ''N/A''))
              \<lparr> is_resolved := True, resolved_at := Some 9 \<rparr>,
            Defect_init 2 ''D-002'' ''paint'' ''scratch'' ''ann'' (MinorDefect ''N/A'')],
         io_trace = [] \<rparr>"
  let ?e = "\<lparr> log_database = [Defect_init 2 ''D-002'' ''paint'' ''scratch'' ''ann'' (MinorDefect ''N/A'')],
         io_trace = [] \<rparr>"
  have h: "\<exists>d\<in>set (log_database ?c). is_resolved d" by simp
  have g: "\<forall>d\<in>set (log_database ?e). \<not> is_resolved d" by (simp add: Defect_init_def)
  note r = clear_resolved_contract [where c = ?c and dk = DiskOk,
      THEN conjunct2, THEN conjunct1, THEN mp, OF h, THEN conjunct2, THEN conjunct1]
  note q = clear_resolved_contract [where c = ?e and dk = DiskOk, THEN conjunct1, THEN mp, OF g]
  have 1: "log_database (snd (clear_resolved_defects DiskOk ?c))
     = [Defect_init 2 ''D-002'' ''paint'' ''scratch'' ''ann'' (MinorDefect ''N/A'')]"
    unfolding r by (simp add: Defect_init_def)
  show ?thesis by (rule conjI [OF 1 q])
qed

section \<open>The lifecycle of a defect\<close>

lemma create_defect_unresolved:
  "\<not> is_resolved (create_defect now defect_type did task desc user detail)
   \<and> resolved_at (create_defect now defect_type did task desc user detail) = None"
  by (simp add: create_defect_def new_CriticalDefect_def new_MinorDefect_def Defect_init_def)

lemma process_resolution_log:
  "log_database (snd (process_resolution dk now c did manager_name details)) =
     (case find_index (log_database c) did of
        None \<Rightarrow> log_database c
      | Some i \<Rightarrow>
          if is_resolved (log_database c ! i) then log_database c
          else (log_database c)
                 [i := (log_database c ! i)\<lparr> is_resolved := True, resolved_by := manager_name,
                        resolution_details := details, resolved_at := Some now \<rparr>])"
  by (simp add: process_resolution_eq force_save_data_eq split: option.splits)

lemma clear_resolved_defects_log:
  "log_database (snd (clear_resolved_defects dk c)) = filter (\<lambda>d. \<not> is_resolved d) (log_database c)"
  by (auto simp: clear_resolved_defects_eq force_save_data_eq)

lemma report_defect_log: "log_database (snd (report_defect dk c d)) = log_database c @ [d]"
  by (simp add: report_defect_eq)

lemma reachable_resolved_at:
  "reachable c \<Longrightarrow> \<forall>d\<in>set (log_database c). (resolved_at d \<noteq> None) = is_resolved d"
proof (induction rule: reachable.induct)
  case start
  show ?case by simp
next
  case (report c dk now defect_type did task desc user detail r c')
  from report.hyps(2) have "log_database c' = log_database c
      @ [create_defect now defect_type did task desc user detail]"
    using report_defect_log [of dk c "create_defect now defect_type did task desc user detail"]
    by simp
  with report.IH create_defect_unresolved show ?case by auto
next
  case (resolution c dk now did manager_name details r c')
  from resolution.hyps(2) have l: "log_database c' =
      log_database (snd (process_resolution dk now c did manager_name details))" by simp
  show ?case
  proof
    fix d assume "d \<in> set (log_database c')"
    then have "d \<in> set (log_database c)
       \<or> (\<exists>i. d = (log_database c ! i)\<lparr> is_resolved := True, resolved_by := manager_name,
                        resolution_details := details, resolved_at := Some now \<rparr>)"
      unfolding l process_resolution_log
      using set_update_subset_insert by (fastforce split: option.splits if_splits)
    with resolution.IH show "(resolved_at d \<noteq> None) = is_resolved d" by auto
  qed
next
  case (clear c dk r c')
  from clear.hyps(2) have "log_database c' = filter (\<lambda>d. \<not> is_resolved d) (log_database c)"
    using clear_resolved_defects_log [of dk c] by simp
  with clear.IH show ?case by simp
qed

lemma process_resolution_length:
  "length (log_database (snd (process_resolution dk now c did manager_name details)))
     = length (log_database c)"
  by (simp add: process_resolution_log split: option.splits)

lemma process_resolution_nth:
  "i < length (log_database c) \<Longrightarrow>
     (is_resolved (log_database c ! i) \<longrightarrow>
        log_database (snd (process_resolution dk now c did manager_name details)) ! i
          = log_database c ! i)
     \<and> (log_database (snd (process_resolution dk now c did manager_name details)) ! i
          \<noteq> log_database c ! i \<longrightarrow>
        \<not> is_resolved (log_database c ! i)
        \<and> is_resolved (log_database (snd (process_resolution dk now c did manager_name details)) ! i))"
proof (cases "find_index (log_database c) did")
  case None
  then show ?thesis by (simp add: process_resolution_log)
next
  case (Some k)
  then have "k < length (log_database c)" using find_index_SomeD by blast
  with Some show ?thesis
    by (cases "i = k") (simp_all add: process_resolution_log)
qed

text \<open>The log after a report and a resolution by an id that differs in case.\<close>

lemma report_then_resolve_example:
  "log_database (snd (process_resolution DiskOk 9
        (snd (report_defect DiskOk \<lparr> log_database = [], io_trace = [] \<rparr>
           (create_defect 2 ''Minor'' ''D-002'' ''paint'' ''scratch'' ''ann'' ''N/A'')))
        ''d-002'' ''bob'' ''buffed''))
   = [(Defect_init 2 ''D-002'' ''paint'' ''scratch'' ''ann'' (MinorDefect ''N/A''))
        \<lparr> is_resolved := True, resolved_by := ''bob'',
          resolution_details := ''buffed'', resolved_at := Some 9 \<rparr>]"
  by code_simp

text \<open>
  Claim C7. In every state the commands produce from the empty log, a defect in the log
  has a \<open>resolved_at\<close> exactly when it is resolved. A defect is constructed unresolved,
  without \<open>resolved_at\<close>. The resolution command keeps the length of the log, leaves
  every resolved defect as it is, and a defect it changes was unresolved and is resolved
  afterwards; resolving a resolved defect is refused with the defect unchanged. Reporting
  only appends and clearing only removes, so no command takes a defect back from
  resolved to unresolved.
\<close>

theorem resolved_once:
  "reachable c \<Longrightarrow>
     (\<forall>d\<in>set (log_database c). (resolved_at d \<noteq> None) = is_resolved d)
     \<and> (\<forall>d\<in>set (log_database c). is_resolved d \<longrightarrow>
          resolve now d resolver_name details
            = (Raised (DefectAlreadyResolvedException ''Defect already resolved.''), d))
     \<and> length (log_database (snd (process_resolution dk now c did resolver_name details)))
          = length (log_database c)
     \<and> (\<forall>i<length (log_database c).
          (is_resolved (log_database c ! i) \<longrightarrow>
             log_database (snd (process_resolution dk now c did resolver_name details)) ! i
               = log_database c ! i)
          \<and> (log_database (snd (process_resolution dk now c did resolver_name details)) ! i
               \<noteq> log_database c ! i \<longrightarrow>
             \<not> is_resolved (log_database c ! i)
             \<and> is_resolved
                 (log_database (snd (process_resolution dk now c did resolver_name details)) ! i)))
     \<and> log_database (snd (report_defect dk c (create_defect now defect_type rid task desc user detail)))
          = log_database c @ [create_defect now defect_type rid task desc user detail]
     \<and> \<not> is_resolved (create_defect now defect_type rid task desc user detail)
     \<and> resolved_at (create_defect now defect_type rid task desc user detail) = None
     \<and> log_database (snd (clear_resolved_defects dk c))
          = filter (\<lambda>d. \<not> is_resolved d) (log_database c)"
proof (intro conjI)
  assume r: "reachable c"
  then show "\<forall>d\<in>set (log_database c). (resolved_at d \<noteq> None) = is_resolved d"
    by (rule reachable_resolved_at)
  show "\<forall>d\<in>set (log_database c). is_resolved d \<longrightarrow>
          resolve now d resolver_name details
            = (Raised (DefectAlreadyResolvedException ''Defect already resolved.''), d)"
    by (simp add: resolve_def)
  show "length (log_database (snd (process_resolution dk now c did resolver_name details)))
          = length (log_database c)"
    by (rule process_resolution_length)
  show "\<forall>i<length (log_database c).
          (is_resolved (log_database c ! i) \<longrightarrow>
             log_database (snd (process_resolution dk now c did resolver_name details)) ! i
               = log_database c ! i)
          \<and> (log_database (snd (process_resolution dk now c did resolver_name details)) ! i
               \<noteq> log_database c ! i \<longrightarrow>
             \<not> is_resolved (log_database c ! i)
             \<and> is_resolved
                 (log_database (snd (process_resolution dk now c did resolver_name details)) ! i))"
    using process_resolution_nth by blast
  show "log_database (snd (report_defect dk c (create_defect now defect_type rid task desc user detail)))
          = log_database c @ [create_defect now defect_type rid task desc user detail]"
    by (rule report_defect_log)
  show "\<not> is_resolved (create_defect now defect_type rid task desc user detail)"
    using create_defect_unresolved by blast
  show "resolved_at (create_defect now defect_type rid task desc user detail) = None"
    using create_defect_unresolved by blast
  show "log_database (snd (clear_resolved_defects dk c))
          = filter (\<lambda>d. \<not> is_resolved d) (log_database c)"
    by (rule clear_resolved_defects_log)
qed

theorem resolved_once_witness:
  "(resolved_at
      ((Defect_init 2 ''D-002'' ''paint'' ''scratch'' ''ann'' (MinorDefect ''N/A''))
         \<lparr> is_resolved := True, resolved_by := ''bob'',
           resolution_details := ''buffed'', resolved_at := Some 9 \<rparr>) \<noteq> None)
   = is_resolved
      ((Defect_init 2 ''D-002'' ''paint'' ''scratch'' ''ann'' (MinorDefect ''N/A''))
         \<lparr> is_resolved := True, resolved_by := ''bob'',
           resolution_details := ''buffed'', resolved_at := Some 9 \<rparr>)"
proof -
  let ?c1 = "snd (report_defect DiskOk \<lparr> log_database = [], io_trace = [] \<rparr>
           (create_defect 2 ''Minor'' ''D-002'' ''paint'' ''scratch'' ''ann'' ''N/A''))"
  let ?c2 = "snd (process_resolution DiskOk 9 ?c1 ''d-002'' ''bob'' ''buffed'')"
  let ?x = "(Defect_init 2 ''D-002'' ''paint'' ''scratch'' ''ann'' (MinorDefect ''N/A''))
         \<lparr> is_resolved := True, resolved_by := ''bob'',
           resolution_details := ''buffed'', resolved_at := Some 9 \<rparr>"
  have "reachable ?c1"
    by (rule reachable.report [OF reachable.start]) (rule prod.collapse [symmetric])
  then have "reachable ?c2"
    by (rule reachable.resolution) (rule prod.collapse [symmetric])
  from resolved_once [OF this, THEN conjunct1]
  have b: "\<forall>d\<in>set (log_database ?c2). (resolved_at d \<noteq> None) = is_resolved d" .
  have "?x \<in> set (log_database ?c2)"
    unfolding report_then_resolve_example by simp
  from bspec [OF b this] show ?thesis .
qed

section \<open>Defect.get\_aging\<close>













end
